theory Spec2Isabelle
  imports Main "HOL-Library.Word" "HOL-Library.Sublist"
begin

section \<open>JavaScript strings\<close>

text \<open>
  A JavaScript string is a sequence of UTF-16 code units. String literals of the source
  are written through \<open>js\<close>, which maps each ASCII character to its code unit; the few
  non-ASCII characters of the HTML template are given by their code unit.
\<close>

type_synonym code_unit = "16 word"
type_synonym jsstring = "code_unit list"

definition js :: "string \<Rightarrow> jsstring" where
  "js s = map of_char s"

definition LF :: code_unit where "LF = 0x0A"
definition SP :: code_unit where "SP = 0x20"

text \<open>
  The class \<^verbatim>\<open>\s\<close> of a regular expression and the characters removed by
  \<^verbatim>\<open>String.prototype.trim\<close> are the same set in ECMAScript: WhiteSpace together with
  LineTerminator (TAB, LF, VT, FF, CR, SP, NBSP, U+1680, U+2000..U+200A, LS, PS,
  U+202F, U+205F, U+3000, U+FEFF).
\<close>

definition is_space :: "code_unit \<Rightarrow> bool" where
  "is_space c \<longleftrightarrow>
     c = 0x09 \<or> c = 0x0A \<or> c = 0x0B \<or> c = 0x0C \<or> c = 0x0D \<or> c = 0x20 \<or>
     c = 0xA0 \<or> c = 0x1680 \<or> (0x2000 \<le> c \<and> c \<le> 0x200A) \<or>
     c = 0x2028 \<or> c = 0x2029 \<or> c = 0x202F \<or> c = 0x205F \<or> c = 0x3000 \<or>
     c = 0xFEFF"

text \<open>
  \<^verbatim>\<open>s.split(sep)\<close> for a separator of one code unit. The result is never an empty
  array, so the last case below is never taken.
\<close>

fun split :: "'a \<Rightarrow> 'a list \<Rightarrow> 'a list list" where
  "split sep [] = [[]]"
| "split sep (c # cs) =
     (if c = sep then [] # split sep cs
      else (case split sep cs of
              l # ls \<Rightarrow> (c # l) # ls
            | [] \<Rightarrow> [[c]]))"

text \<open>\<^verbatim>\<open>parts.join(sep)\<close> on an array of strings.\<close>

fun join :: "'a list \<Rightarrow> 'a list list \<Rightarrow> 'a list" where
  "join sep [] = []"
| "join sep [x] = x"
| "join sep (x # y # ys) = x @ sep @ join sep (y # ys)"

text \<open>\<^verbatim>\<open>s.trim()\<close>.\<close>

definition trim :: "jsstring \<Rightarrow> jsstring" where
  "trim s = rev (dropWhile is_space (rev (dropWhile is_space s)))"

text \<open>
  \<^verbatim>\<open>line.replace(/\s+/g, " ")\<close>: scanning from the left, each maximal run of
  whitespace is replaced by one space.
\<close>

function collapse_ws :: "jsstring \<Rightarrow> jsstring" where
  "collapse_ws [] = []"
| "collapse_ws (c # cs) =
     (if is_space c then SP # collapse_ws (dropWhile is_space cs)
      else c # collapse_ws cs)"
  by pat_completeness auto
termination
  by (relation "measure length") (auto simp: less_Suc_eq_le length_dropWhile_le)

text \<open>\<^verbatim>\<open>s.replaceAll(pat, by)\<close> for a pattern of one code unit.\<close>

definition replaceAll :: "'a \<Rightarrow> 'a list \<Rightarrow> 'a list \<Rightarrow> 'a list" where
  "replaceAll pat by s = concat (map (\<lambda>c. if c = pat then by else [c]) s)"

text \<open>\<^verbatim>\<open>s.startsWith(p)\<close>.\<close>

definition startsWith :: "'a list \<Rightarrow> 'a list \<Rightarrow> bool" where
  "startsWith s p \<longleftrightarrow> take (length p) s = p"

section \<open>Text cleanup\<close>

text \<open>
  Lines 96 to 100 of \<^verbatim>\<open>src/scraper.js\<close> (94 to 98 of the second script):
  \<^verbatim>\<open>text.split("\n").map((line) => line.replace(/\s+/g, " ").trim()).filter(Boolean).join("\n")\<close>.
  \<^verbatim>\<open>filter(Boolean)\<close> on strings keeps the non-empty ones.
\<close>

definition normalize :: "jsstring \<Rightarrow> jsstring" where
  "normalize text =
     join [LF] (filter (\<lambda>l. l \<noteq> []) (map (\<lambda>line. trim (collapse_ws line)) (split LF text)))"

section \<open>The environment of a run\<close>

text \<open>
  The scripts drive a headless browser through Playwright. Each awaited call either
  resolves with a value or rejects; a rejection is either Playwright's \<^verbatim>\<open>TimeoutError\<close> or
  some other error, both carrying a message.
\<close>

datatype driver_failure = TimeoutError jsstring | DriverError jsstring

type_synonym 'a promise = "driver_failure + 'a"

text \<open>
  What can be thrown inside the \<^verbatim>\<open>try\<close> block: a rejection of the driver, the script's
  own \<^verbatim>\<open>new Error("No href found on the most recent .underlay-link")\<close>, and the
  \<^verbatim>\<open>TypeError\<close> of \<^verbatim>\<open>new URL\<close> on input it cannot parse.
\<close>

datatype error = Rejected driver_failure | NoHref | InvalidURL

fun message :: "error \<Rightarrow> jsstring" where
  "message (Rejected (TimeoutError m)) = m"
| "message (Rejected (DriverError m)) = m"
| "message NoHref = js ''No href found on the most recent .underlay-link''"
| "message InvalidURL = js ''Invalid URL''"

text \<open>
  The responses of one run, one field per call site of the source. \<open>new_URL h b\<close> is the
  platform's \<^verbatim>\<open>new URL(h, b).toString()\<close>, \<open>None\<close> when the constructor throws;
  \<open>now_ISO\<close> is \<^verbatim>\<open>new Date().toISOString()\<close>.
\<close>

record env =
  launch :: "unit promise"
  newContext :: "unit promise"
  newPage :: "unit promise"
  goto_home :: "unit promise"
  waitForSelector :: "unit promise"
  getAttribute :: "jsstring option promise"
  new_URL :: "jsstring \<Rightarrow> jsstring \<Rightarrow> jsstring option"
  goto_article :: "jsstring \<Rightarrow> unit promise"
  article_waitFor :: "unit promise"
  content_waitFor :: "unit promise"
  h1_textContent :: "jsstring option promise"
  article_count :: "nat promise"
  article_innerText :: "jsstring promise"
  content_count :: "nat promise"
  content_innerText :: "jsstring promise"
  main_count :: "nat promise"
  main_innerText :: "jsstring promise"
  now_ISO :: jsstring
  page_close :: "unit promise"
  context_close :: "unit promise"
  browser_close :: "unit promise"

text \<open>\<^verbatim>\<open>p.catch(() => v)\<close>: a rejection becomes the value \<open>v\<close>.\<close>

definition catch_default :: "'a promise \<Rightarrow> 'a \<Rightarrow> 'a" where
  "catch_default p v = (case p of Inl _ \<Rightarrow> v | Inr x \<Rightarrow> x)"

text \<open>The observable effects of a run, in the order they happen.\<close>

datatype logged = Msg jsstring | Obj error

datatype event =
    Launch | NewContext | NewPage
  | Goto jsstring
  | ConsoleLog jsstring
  | ConsoleError jsstring logged
  | SetExitCode nat
  | PageClose | ContextClose | BrowserClose

section \<open>The extraction pipeline of \<^verbatim>\<open>src/scraper.js\<close>\<close>

text \<open>
  Lines 21 to 34: wait for a \<^verbatim>\<open>.underlay-link\<close>, read the \<^verbatim>\<open>href\<close> of the first one,
  throw when it is \<^verbatim>\<open>null\<close> or empty, keep it when it starts with \<^verbatim>\<open>http\<close> and resolve
  it against \<^verbatim>\<open>https://yle.fi\<close> otherwise.
\<close>

definition targetUrl :: "env \<Rightarrow> jsstring \<Rightarrow> error + jsstring" where
  "targetUrl d href =
     (if startsWith href (js ''http'') then Inr href
      else (case new_URL d href (js ''https://yle.fi'') of
              None \<Rightarrow> Inl InvalidURL
            | Some u \<Rightarrow> Inr u))"

definition latestLink :: "env \<Rightarrow> error + jsstring" where
  "latestLink d =
     (case waitForSelector d of
        Inl f \<Rightarrow> Inl (Rejected f)
      | Inr _ \<Rightarrow>
        (case getAttribute d of
           Inl f \<Rightarrow> Inl (Rejected f)
         | Inr None \<Rightarrow> Inl NoHref
         | Inr (Some href) \<Rightarrow> if href = [] then Inl NoHref else targetUrl d href))"

text \<open>
  Lines 47 to 54: the two visibility waits are raced, each with its rejection caught;
  nothing of their outcome is used.
\<close>

definition raceVisible :: "env \<Rightarrow> unit" where
  "raceVisible d = (let _ = catch_default (article_waitFor d) (); _ = catch_default (content_waitFor d) () in ())"

text \<open>
  Lines 58 to 65: \<^verbatim>\<open>(await h1.textContent().catch(() => null))?.trim() || ""\<close>.
\<close>

definition readTitle :: "env \<Rightarrow> jsstring" where
  "readTitle d = (case catch_default (h1_textContent d) None of None \<Rightarrow> [] | Some s \<Rightarrow> trim s)"

text \<open>\<^verbatim>\<open>(await locator.first().innerText().catch(() => ""))?.trim()\<close>.\<close>

definition readText :: "jsstring promise \<Rightarrow> jsstring" where
  "readText p = trim (catch_default p [])"

text \<open>
  Lines 67 to 93, one definition per \<^verbatim>\<open>if\<close>. \<^verbatim>\<open>count()\<close> is awaited without a
  \<^verbatim>\<open>catch\<close>, so its rejection leaves the \<^verbatim>\<open>try\<close> block; the second and third count are
  awaited only when \<^verbatim>\<open>text\<close> is still empty.
\<close>

definition articleTier :: "env \<Rightarrow> jsstring \<Rightarrow> error + jsstring" where
  "articleTier d txt =
     (case article_count d of
        Inl f \<Rightarrow> Inl (Rejected f)
      | Inr n \<Rightarrow> Inr (if n \<noteq> 0 then readText (article_innerText d) else txt))"

definition contentTier :: "env \<Rightarrow> jsstring \<Rightarrow> error + jsstring" where
  "contentTier d txt =
     (if txt = [] then
        (case content_count d of
           Inl f \<Rightarrow> Inl (Rejected f)
         | Inr n \<Rightarrow> Inr (if n \<noteq> 0 then readText (content_innerText d) else txt))
      else Inr txt)"

definition mainTier :: "env \<Rightarrow> jsstring \<Rightarrow> error + jsstring" where
  "mainTier d txt =
     (if txt = [] then
        (case main_count d of
           Inl f \<Rightarrow> Inl (Rejected f)
         | Inr n \<Rightarrow> Inr (if n \<noteq> 0 then readText (main_innerText d) else txt))
      else Inr txt)"

definition resolveContent :: "env \<Rightarrow> error + (jsstring \<times> jsstring)" where
  "resolveContent d =
     (let ttl = readTitle d in
      case articleTier d [] of
        Inl e \<Rightarrow> Inl e
      | Inr t1 \<Rightarrow>
        (case contentTier d t1 of
           Inl e \<Rightarrow> Inl e
         | Inr t2 \<Rightarrow>
           (case mainTier d t2 of
              Inl e \<Rightarrow> Inl e
            | Inr t3 \<Rightarrow> Inr (ttl, t3))))"

text \<open>
  Lines 15 to 100: both page loads, the link, the content and the cleanup. The result is
  the title, the target URL and the cleaned text, with the navigations issued on the way.
\<close>

definition extractCore :: "env \<Rightarrow> (error + (jsstring \<times> jsstring \<times> jsstring)) \<times> event list" where
  "extractCore d =
     (case goto_home d of
        Inl f \<Rightarrow> (Inl (Rejected f), [Goto (js ''https://yle.fi/'')])
      | Inr _ \<Rightarrow>
        (case latestLink d of
           Inl e \<Rightarrow> (Inl e, [Goto (js ''https://yle.fi/'')])
         | Inr target \<Rightarrow>
           (case goto_article d target of
              Inl f \<Rightarrow> (Inl (Rejected f), [Goto (js ''https://yle.fi/''), Goto target])
            | Inr _ \<Rightarrow>
              (let _ = raceVisible d in
               case resolveContent d of
                 Inl e \<Rightarrow> (Inl e, [Goto (js ''https://yle.fi/''), Goto target])
               | Inr (ttl, txt) \<Rightarrow>
                   (Inr (ttl, target, normalize txt),
                    [Goto (js ''https://yle.fi/''), Goto target])))))"

record article =
  title :: jsstring
  url :: jsstring
  "text" :: jsstring
  fetchedAt :: jsstring

text \<open>Lines 14 to 107: the \<^verbatim>\<open>try\<close> block, ending in the returned object.\<close>

definition tryBlock :: "env \<Rightarrow> (error + article) \<times> event list" where
  "tryBlock d =
     (case extractCore d of
        (Inl e, evs) \<Rightarrow> (Inl e, evs)
      | (Inr (ttl, target, cleaned), evs) \<Rightarrow>
          (Inr \<lparr>title = ttl, url = target, text = cleaned, fetchedAt = now_ISO d\<rparr>, evs))"

text \<open>
  Lines 108 to 111: \<^verbatim>\<open>console.error("Scrape failed:", error?.message || error)\<close>,
  then the exit code.
\<close>

definition catchBlock :: "error \<Rightarrow> event list" where
  "catchBlock e =
     [ConsoleError (js ''Scrape failed:'') (if message e \<noteq> [] then Msg (message e) else Obj e),
      SetExitCode 1]"

text \<open>Lines 112 to 116: the three \<^verbatim>\<open>close()\<close> calls, each with its rejection caught.\<close>

definition finallyBlock :: "env \<Rightarrow> event list" where
  "finallyBlock d =
     (let _ = catch_default (page_close d) ();
          _ = catch_default (context_close d) ();
          _ = catch_default (browser_close d) ()
      in [PageClose, ContextClose, BrowserClose])"

text \<open>
  The whole function. The session is acquired before the \<^verbatim>\<open>try\<close> (lines 11 to 13), so a
  rejection there rejects the function itself (\<open>Inl\<close>); after that the function returns
  the record or \<^verbatim>\<open>null\<close> (\<open>Inr\<close> of an option).
\<close>

definition fetchLatestYleArticle :: "env \<Rightarrow> (driver_failure + article option) \<times> event list" where
  "fetchLatestYleArticle d =
     (case launch d of
        Inl f \<Rightarrow> (Inl f, [Launch])
      | Inr _ \<Rightarrow>
        (case newContext d of
           Inl f \<Rightarrow> (Inl f, [Launch, NewContext])
         | Inr _ \<Rightarrow>
           (case newPage d of
              Inl f \<Rightarrow> (Inl f, [Launch, NewContext, NewPage])
            | Inr _ \<Rightarrow>
              (case tryBlock d of
                 (Inr a, evs) \<Rightarrow>
                   (Inr (Some a), [Launch, NewContext, NewPage] @ evs @ finallyBlock d)
               | (Inl e, evs) \<Rightarrow>
                   (Inr None,
                    [Launch, NewContext, NewPage] @ evs @ catchBlock e @ finallyBlock d)))))"

section \<open>Output\<close>

text \<open>\<^verbatim>\<open>xs.filter(Boolean)\<close> on an array of strings and \<^verbatim>\<open>null\<close>.\<close>

fun filterBoolean :: "jsstring option list \<Rightarrow> jsstring list" where
  "filterBoolean [] = []"
| "filterBoolean (None # xs) = filterBoolean xs"
| "filterBoolean (Some s # xs) = (if s = [] then filterBoolean xs else s # filterBoolean xs)"

text \<open>Lines 200 to 207 of \<^verbatim>\<open>src/scraper.js\<close>, and 100 to 107 of the second script.\<close>

definition plainOutput :: "jsstring \<Rightarrow> jsstring \<Rightarrow> jsstring \<Rightarrow> jsstring" where
  "plainOutput ttl target body =
     join [LF] (filterBoolean
       [if ttl \<noteq> [] then Some (js ''TITLE: '' @ ttl) else None,
        Some (js ''URL: '' @ target),
        Some (js ''---''),
        Some (if body \<noteq> [] then body else js ''(No article text extracted)'')])"

text \<open>
  Lines 190 to 209 of \<^verbatim>\<open>src/scraper.js\<close>, for an invocation without \<^verbatim>\<open>--out\<close>: run,
  stop on \<^verbatim>\<open>null\<close>, print the plain text otherwise.
\<close>

definition main_plain :: "env \<Rightarrow> (driver_failure + unit) \<times> event list" where
  "main_plain d =
     (case fetchLatestYleArticle d of
        (Inl f, evs) \<Rightarrow> (Inl f, evs)
      | (Inr None, evs) \<Rightarrow> (Inr (), evs)
      | (Inr (Some data), evs) \<Rightarrow>
          (Inr (), evs @ [ConsoleLog (plainOutput (title data) (url data) (text data))]))"

text \<open>
  The second script (\<^verbatim>\<open>src/unnamed/part_000\<close>), embedded on its own: its \<^verbatim>\<open>try\<close> block
  (lines 12 to 109) written out statement by statement, ending with the output printed
  inside the block; nothing is returned.
\<close>

definition tryBlock_part_000 :: "env \<Rightarrow> (error + unit) \<times> event list" where
  "tryBlock_part_000 d =
     (let home = js ''https://yle.fi/'' in
      case goto_home d of
        Inl f \<Rightarrow> (Inl (Rejected f), [Goto home])
      | Inr _ \<Rightarrow>
      (case waitForSelector d of
        Inl f \<Rightarrow> (Inl (Rejected f), [Goto home])
      | Inr _ \<Rightarrow>
      (case getAttribute d of
        Inl f \<Rightarrow> (Inl (Rejected f), [Goto home])
      | Inr None \<Rightarrow> (Inl NoHref, [Goto home])
      | Inr (Some href) \<Rightarrow>
        if href = [] then (Inl NoHref, [Goto home])
        else
        (case (if startsWith href (js ''http'') then Some href
               else new_URL d href (js ''https://yle.fi'')) of
          None \<Rightarrow> (Inl InvalidURL, [Goto home])
        | Some target \<Rightarrow>
        (case goto_article d target of
          Inl f \<Rightarrow> (Inl (Rejected f), [Goto home, Goto target])
        | Inr _ \<Rightarrow>
        (let ttl = (case h1_textContent d of
                      Inl _ \<Rightarrow> [] | Inr None \<Rightarrow> [] | Inr (Some s) \<Rightarrow> trim s) in
         case article_count d of
           Inl f \<Rightarrow> (Inl (Rejected f), [Goto home, Goto target])
         | Inr na \<Rightarrow>
         (let text1 = (if na \<noteq> 0
                       then trim (case article_innerText d of Inl _ \<Rightarrow> [] | Inr s \<Rightarrow> s)
                       else []) in
          case (if text1 = [] then
                  (case content_count d of
                     Inl f \<Rightarrow> Inl f
                   | Inr nc \<Rightarrow>
                       Inr (if nc \<noteq> 0
                            then trim (case content_innerText d of Inl _ \<Rightarrow> [] | Inr s \<Rightarrow> s)
                            else text1))
                else Inr text1) of
            Inl f \<Rightarrow> (Inl (Rejected f), [Goto home, Goto target])
          | Inr text2 \<Rightarrow>
          (case (if text2 = [] then
                   (case main_count d of
                      Inl f \<Rightarrow> Inl f
                    | Inr nm \<Rightarrow>
                        Inr (if nm \<noteq> 0
                             then trim (case main_innerText d of Inl _ \<Rightarrow> [] | Inr s \<Rightarrow> s)
                             else text2))
                 else Inr text2) of
             Inl f \<Rightarrow> (Inl (Rejected f), [Goto home, Goto target])
           | Inr text3 \<Rightarrow>
           (let cleaned =
                  join [LF] (filter (\<lambda>l. l \<noteq> [])
                    (map (\<lambda>line. trim (collapse_ws line)) (split LF text3)));
                output =
                  join [LF] (filterBoolean
                    [if ttl \<noteq> [] then Some (js ''TITLE: '' @ ttl) else None,
                     Some (js ''URL: '' @ target),
                     Some (js ''---''),
                     Some (if cleaned \<noteq> [] then cleaned
                           else js ''(No article text extracted)'')])
            in (Inr (), [Goto home, Goto target, ConsoleLog output]))))))))))"

definition fetchLatestYleArticle_part_000 :: "env \<Rightarrow> (driver_failure + unit) \<times> event list" where
  "fetchLatestYleArticle_part_000 d =
     (case launch d of
        Inl f \<Rightarrow> (Inl f, [Launch])
      | Inr _ \<Rightarrow>
        (case newContext d of
           Inl f \<Rightarrow> (Inl f, [Launch, NewContext])
         | Inr _ \<Rightarrow>
           (case newPage d of
              Inl f \<Rightarrow> (Inl f, [Launch, NewContext, NewPage])
            | Inr _ \<Rightarrow>
              (case tryBlock_part_000 d of
                 (Inr _, evs) \<Rightarrow>
                   (Inr (), [Launch, NewContext, NewPage] @ evs @ finallyBlock d)
               | (Inl e, evs) \<Rightarrow>
                   (Inr (),
                    [Launch, NewContext, NewPage] @ evs @ catchBlock e @ finallyBlock d)))))"

section \<open>The HTML renderer\<close>

text \<open>Lines 168 to 175: five passes, the ampersand first.\<close>

definition escapeHtml :: "jsstring \<Rightarrow> jsstring" where
  "escapeHtml s =
     replaceAll 0x27 (js ''&#39;'')
       (replaceAll 0x22 (js ''&quot;'')
         (replaceAll 0x3E (js ''&gt;'')
           (replaceAll 0x3C (js ''&lt;'')
             (replaceAll 0x26 (js ''&amp;'') s))))"

text \<open>Lines 120 to 125.\<close>

definition paragraphs :: "jsstring \<Rightarrow> jsstring" where
  "paragraphs body =
     (if body \<noteq> [] then
        join [LF] (map (\<lambda>p. js ''<p>'' @ escapeHtml p @ js ''</p>'') (split LF body))
      else js ''<p>(No article text extracted)</p>'')"

text \<open>
  The literal parts of the template of lines 126 to 165, between its interpolations.
\<close>

definition html_0 :: jsstring where
  \<open>html_0 =
     js ''<!doctype html>\<newline>'' @
     js ''<html lang="fi">\<newline>'' @
     js ''<head>\<newline>'' @
     js ''  <meta charset="utf-8" />\<newline>'' @
     js ''  <meta name="viewport" content="width=device-width, initial-scale=1" />\<newline>'' @
     js ''  <title>''\<close>

definition html_1 :: jsstring where
  \<open>html_1 =
     js ''</title>\<newline>'' @
     js ''  <style>\<newline>'' @
     js ''    body { font-family: system-ui, -apple-system, Segoe UI, Roboto, sans-serif; margin: 2rem auto; padding: 0 1rem; max-width: 820px; line-height: 1.6; color: #111; }\<newline>'' @
     js ''    header { margin-bottom: 1.5rem; }\<newline>'' @
     js ''    h1 { font-size: 1.8rem; margin: 0 0 .5rem 0; }\<newline>'' @
     js ''    .meta { color: #666; font-size: .95rem; }\<newline>'' @
     js ''    a { color: #0a63c6; text-decoration: none; }\<newline>'' @
     js ''    a:hover { text-decoration: underline; }\<newline>'' @
     js ''    footer { margin-top: 2rem; color: #666; font-size: .9rem; }\<newline>'' @
     js ''  </style>\<newline>'' @
     js ''  <meta name="robots" content="noindex" />\<newline>'' @
     js ''  <meta property="og:title" content="''\<close>

definition html_2 :: jsstring where
  \<open>html_2 =
     js ''" />\<newline>'' @
     js ''  <meta property="og:url" content="''\<close>

definition html_3 :: jsstring where
  \<open>html_3 =
     js ''" />\<newline>'' @
     js ''  <meta name="description" content="Viimeisin Ylen artikkeli. P'' @ [0xE4] @ js ''ivitetty: ''\<close>

definition html_4 :: jsstring where
  \<open>html_4 =
     js ''" />\<newline>'' @
     js ''  <link rel="icon" href="data:," />\<newline>'' @
     js ''  </head>\<newline>'' @
     js ''<body>\<newline>'' @
     js ''  <header>\<newline>'' @
     js ''    <h1>''\<close>

definition html_5 :: jsstring where
  \<open>html_5 =
     js ''</h1>\<newline>'' @
     js ''    <div class="meta">L'' @ [0xE4] @ js ''hde: <a href="''\<close>

definition html_6 :: jsstring where
  \<open>html_6 =
     js ''">''\<close>

definition html_7 :: jsstring where
  \<open>html_7 =
     js ''</a> '' @ [0xB7] @ js '' P'' @ [0xE4] @ js ''ivitetty: ''\<close>

definition html_8 :: jsstring where
  \<open>html_8 =
     js ''</div>\<newline>'' @
     js ''  </header>\<newline>'' @
     js ''  <main>\<newline>'' @
     js ''    ''\<close>

definition html_9 :: jsstring where
  \<open>html_9 =
     js ''\<newline>'' @
     js ''  </main>\<newline>'' @
     js ''  <footer>\<newline>'' @
     js ''    Rakennettu automaattisesti Playwright-selaimella.\<newline>'' @
     js ''  </footer>\<newline>'' @
     js ''</body>\<newline>'' @
     js ''</html>''\<close>

text \<open>\<^verbatim>\<open>title || fallback\<close>.\<close>

definition orDefault :: "jsstring \<Rightarrow> jsstring \<Rightarrow> jsstring" where
  "orDefault s fallback = (if s \<noteq> [] then s else fallback)"

definition renderHtml :: "article \<Rightarrow> jsstring" where
  "renderHtml data =
     html_0 @ escapeHtml (orDefault (title data) (js ''Yle uusin artikkeli'')) @
     html_1 @ escapeHtml (orDefault (title data) (js ''Yle uusin artikkeli'')) @
     html_2 @ escapeHtml (url data) @
     html_3 @ escapeHtml (fetchedAt data) @
     html_4 @ escapeHtml (orDefault (title data) (js ''Viimeisin Ylen artikkeli'')) @
     html_5 @ escapeHtml (url data) @
     html_6 @ escapeHtml (url data) @
     html_7 @ escapeHtml (fetchedAt data) @
     html_8 @ paragraphs (text data) @
     html_9"

section \<open>Vocabulary of the properties\<close>

text \<open>The words of a line: its maximal runs of code units that are not whitespace.\<close>

function ws_words :: "jsstring \<Rightarrow> jsstring list" where
  "ws_words [] = []"
| "ws_words (c # cs) =
     (if is_space c then ws_words cs
      else (c # takeWhile (\<lambda>x. \<not> is_space x) cs) #
           ws_words (dropWhile (\<lambda>x. \<not> is_space x) cs))"
  by pat_completeness auto
termination
  by (relation "measure length") (auto simp: less_Suc_eq_le length_dropWhile_le)

text \<open>Removing the whitespace at the end only.\<close>

definition rtrim :: "jsstring \<Rightarrow> jsstring" where
  "rtrim s = rev (dropWhile is_space (rev s))"

text \<open>What escaping does to one code unit, and the four characters that can open or
  close a tag or an attribute value.\<close>

definition escapeChar :: "code_unit \<Rightarrow> jsstring" where
  "escapeChar c =
     (if c = 0x26 then js ''&amp;''
      else if c = 0x3C then js ''&lt;''
      else if c = 0x3E then js ''&gt;''
      else if c = 0x22 then js ''&quot;''
      else if c = 0x27 then js ''&#39;''
      else [c])"

definition markup :: "code_unit \<Rightarrow> bool" where
  "markup c \<longleftrightarrow> c = 0x3C \<or> c = 0x3E \<or> c = 0x22 \<or> c = 0x27"

text \<open>
  An absolute URL starts with a scheme and a colon (RFC 3986, section 4.3): a letter,
  then letters, digits, plus, minus and dot.
\<close>

definition is_alpha :: "code_unit \<Rightarrow> bool" where
  "is_alpha c \<longleftrightarrow> (0x41 \<le> c \<and> c \<le> 0x5A) \<or> (0x61 \<le> c \<and> c \<le> 0x7A)"

definition is_scheme_char :: "code_unit \<Rightarrow> bool" where
  "is_scheme_char c \<longleftrightarrow>
     is_alpha c \<or> (0x30 \<le> c \<and> c \<le> 0x39) \<or> c = 0x2B \<or> c = 0x2D \<or> c = 0x2E"

definition has_scheme :: "jsstring \<Rightarrow> bool" where
  "has_scheme s =
     (case s of
        [] \<Rightarrow> False
      | c # cs \<Rightarrow>
          is_alpha c \<and>
          (case dropWhile is_scheme_char cs of [] \<Rightarrow> False | x # _ \<Rightarrow> x = 0x3A))"



text \<open>
  For every \<^verbatim>\<open><\<close> of a string, the up to two code units that follow it; a string in which
  every \<^verbatim>\<open><\<close> has its two followers; and a string in which, moreover, no \<^verbatim>\<open><\<close> is
  followed by \<^verbatim>\<open>sc\<close>.
\<close>

fun after_lt :: "jsstring \<Rightarrow> jsstring list" where
  "after_lt [] = []"
| "after_lt (c # cs) = (if c = 0x3C then take 2 cs # after_lt cs else after_lt cs)"

fun lt_closed :: "jsstring \<Rightarrow> bool" where
  "lt_closed [] = True"
| "lt_closed (c # cs) =
     (if c = 0x3C then length (take 2 cs) = 2 \<and> lt_closed cs else lt_closed cs)"

definition no_script :: "jsstring \<Rightarrow> bool" where
  "no_script xs \<longleftrightarrow> lt_closed xs \<and> js ''sc'' \<notin> set (after_lt xs)"

text \<open>The session has been acquired: lines 11 to 13 all resolved.\<close>

definition acquired :: "env \<Rightarrow> bool" where
  "acquired d \<longleftrightarrow> launch d = Inr () \<and> newContext d = Inr () \<and> newPage d = Inr ()"

fun is_close :: "event \<Rightarrow> bool" where
  "is_close PageClose = True"
| "is_close ContextClose = True"
| "is_close BrowserClose = True"
| "is_close _ = False"

text \<open>
  Playwright on a homepage whose \<^verbatim>\<open>.underlay-link\<close> elements carry, in document order, the
  given \<^verbatim>\<open>href\<close> attributes (\<open>None\<close> for an element without one) when the wait ends:
  \<^verbatim>\<open>waitForSelector\<close> rejects with a \<^verbatim>\<open>TimeoutError\<close> when there is no such element, and
  \<^verbatim>\<open>getAttribute\<close> on the first element resolves with its attribute.
\<close>

definition on_homepage :: "jsstring \<Rightarrow> jsstring option list \<Rightarrow> env \<Rightarrow> env" where
  "on_homepage msg links d =
     d\<lparr>waitForSelector := (if links = [] then Inl (TimeoutError msg) else Inr ()),
       getAttribute := (case links of [] \<Rightarrow> Inl (TimeoutError msg) | h # _ \<Rightarrow> Inr h)\<rparr>"

text \<open>
  A run in which every call succeeds: the homepage lists \<^verbatim>\<open>/b/2\<close> first, the article page
  has the heading \<^verbatim>\<open>Headline\<close> and an \<^verbatim>\<open>article\<close> element. Its \<open>new_URL\<close> appends the
  reference to the base, which is what URL resolution does for the path-absolute
  references used with it.
\<close>

definition example_env :: env where
  "example_env =
     \<lparr>launch = Inr (), newContext = Inr (), newPage = Inr (),
      goto_home = Inr (), waitForSelector = Inr (),
      getAttribute = Inr (Some (js ''/b/2'')),
      new_URL = (\<lambda>h b. Some (b @ h)),
      goto_article = (\<lambda>_. Inr ()),
      article_waitFor = Inr (),
      content_waitFor = Inl (TimeoutError (js ''Timeout 15000ms exceeded.'')),
      h1_textContent = Inr (Some (js ''Headline'')),
      article_count = Inr 1,
      article_innerText = Inr (js ''Line one\<newline>\<newline>  Line two  ''),
      content_count = Inr 1,
      content_innerText = Inr (js ''Teaser''),
      main_count = Inr 1,
      main_innerText = Inr (js ''Menu Line one Line two''),
      now_ISO = js ''2026-01-01T00:00:00.000Z'',
      page_close = Inr (), context_close = Inr (), browser_close = Inr ()\<rparr>"

section \<open>Lists, lines and whitespace\<close>

lemma is_space_SP: "is_space SP"
  by (simp add: is_space_def SP_def)

lemma is_space_LF: "is_space LF"
  by (simp add: is_space_def LF_def)

lemma join_Cons: "join sep (x # xs) = (if xs = [] then x else x @ sep @ join sep xs)"
  by (cases xs) auto

lemma join_eq_Nil:
  "join sep xs = [] \<longleftrightarrow> (\<forall>x \<in> set xs. x = []) \<and> (sep = [] \<or> length xs \<le> 1)"
  by (induction sep xs rule: join.induct) auto

lemma set_join: "set (join sep xs) \<subseteq> set sep \<union> \<Union> (set ` set xs)"
  by (induction sep xs rule: join.induct) auto

lemma split_not_Nil: "split sep s \<noteq> []"
  by (induction s) (auto split: list.splits)

lemma join_split: "join [sep] (split sep s) = s"
proof (induction s)
  case Nil
  show ?case by simp
next
  case (Cons c cs)
  obtain h t where r: "split sep cs = h # t"
    using split_not_Nil[of sep cs] by (cases "split sep cs") auto
  show ?case using Cons.IH unfolding r by (auto simp: r join_Cons)
qed

lemma split_no_sep: "l \<in> set (split sep s) \<Longrightarrow> sep \<notin> set l"
proof (induction s arbitrary: l)
  case Nil
  then show ?case by simp
next
  case (Cons c cs)
  obtain h t where r: "split sep cs = h # t"
    using split_not_Nil[of sep cs] by (cases "split sep cs") auto
  show ?case using Cons.prems Cons.IH unfolding r by (auto simp: r split: if_splits)
qed

lemma split_join:
  "ls \<noteq> [] \<Longrightarrow> \<forall>l \<in> set ls. sep \<notin> set l \<Longrightarrow> split sep (join [sep] ls) = ls"
proof (induction ls)
  case Nil
  then show ?case by simp
next
  case (Cons l ls)
  have a: "sep \<notin> set v \<Longrightarrow> split sep (v @ r) = (v @ hd (split sep r)) # tl (split sep r)"
    for v r
    using split_not_Nil[of sep r] by (induction v) (auto split: list.splits)
  show ?case
  proof (cases ls)
    case Nil
    have "sep \<notin> set v \<Longrightarrow> split sep v = [v]" for v by (induction v) auto
    then show ?thesis using Nil Cons.prems by simp
  next
    case (Cons v vs)
    then have "split sep (join [sep] ls) = ls" using Cons.IH Cons.prems by simp
    then show ?thesis using a[of l "sep # join [sep] ls"] Cons.prems Cons by simp
  qed
qed

lemma trim_rtrim: "trim s = rtrim (dropWhile is_space s)"
  by (simp add: trim_def rtrim_def)

lemma rtrim_Nil: "rtrim [] = []"
  by (simp add: rtrim_def)

lemma rtrim_Cons:
  "rtrim (c # s) = (if is_space c \<and> rtrim s = [] then [] else c # rtrim s)"
  by (auto simp: rtrim_def dropWhile_append)

lemma ws_words_nonempty: "w \<in> set (ws_words s) \<Longrightarrow> w \<noteq> []"
  by (induction s rule: ws_words.induct) (auto split: if_splits)

lemma ws_words_nospace: "w \<in> set (ws_words s) \<Longrightarrow> c \<in> set w \<Longrightarrow> \<not> is_space c"
  by (induction s rule: ws_words.induct) (auto split: if_splits dest: set_takeWhileD)

lemma filter_takeWhile_dropWhile: "takeWhile P xs @ filter P (dropWhile P xs) = filter P xs"
  by (induction xs) auto

text \<open>The words of a line are its code units without the whitespace, in order.\<close>

lemma concat_ws_words: "concat (ws_words s) = filter (\<lambda>c. \<not> is_space c) s"
proof (induction s rule: ws_words.induct)
  case 1
  show ?case by simp
next
  case (2 c cs)
  show ?case
  proof (cases "is_space c")
    case True
    then show ?thesis using "2.IH"(1) by simp
  next
    case False
    then show ?thesis
      using "2.IH"(2) filter_takeWhile_dropWhile[of "\<lambda>c. \<not> is_space c" cs] by simp
  qed
qed

lemma ws_words_dropWhile: "ws_words (dropWhile is_space s) = ws_words s"
  by (induction s) auto

lemma ws_words_Cons_nospace:
  "\<not> is_space c \<Longrightarrow> ws_words (c # cs) =
     (if cs = [] \<or> is_space (hd cs) then [c] # ws_words cs
      else (c # hd (ws_words cs)) # tl (ws_words cs))"
  by (cases cs) auto

lemma rtrim_collapse:
  "rtrim (collapse_ws s) =
     (if ws_words s = [] then []
      else (if is_space (hd s) then [SP] else []) @ join [SP] (ws_words s))"
proof (induction s rule: collapse_ws.induct)
  case 1
  show ?case by (simp add: rtrim_Nil)
next
  case (2 c cs)
  show ?case
  proof (cases "is_space c")
    case True
    let ?d = "dropWhile is_space cs"
    have hd: "?d \<noteq> [] \<Longrightarrow> \<not> is_space (hd ?d)"
      using hd_dropWhile by blast
    have w: "ws_words ?d = ws_words cs" by (rule ws_words_dropWhile)
    have ih: "rtrim (collapse_ws ?d) = (if ws_words cs = [] then [] else join [SP] (ws_words cs))"
    proof (cases "?d = []")
      case dNil: True
      have "ws_words cs = []" using w unfolding dNil by simp
      moreover have "rtrim (collapse_ws ?d) = []" unfolding dNil by (simp add: rtrim_Nil)
      ultimately show ?thesis by simp
    next
      case False
      then show ?thesis using "2.IH"(1)[OF True] hd w by simp
    qed
    have ne: "ws_words cs \<noteq> [] \<Longrightarrow> join [SP] (ws_words cs) \<noteq> []"
      using ws_words_nonempty[of _ cs] by (simp add: join_eq_Nil)
    show ?thesis using True ih ne
      by (simp add: rtrim_Cons is_space_SP)
  next
    case False
    have ih: "rtrim (collapse_ws cs) =
       (if ws_words cs = [] then []
        else (if is_space (hd cs) then [SP] else []) @ join [SP] (ws_words cs))"
      using "2.IH"(2)[OF False] .
    show ?thesis
    proof (cases "cs = [] \<or> is_space (hd cs)")
      case True
      then have w: "ws_words (c # cs) = [c] # ws_words cs"
        using ws_words_Cons_nospace[OF False, of cs] by simp
      show ?thesis using False ih True unfolding w
        by (auto simp: rtrim_Cons join_Cons)
    next
      case False2: False
      then have w: "ws_words (c # cs) = (c # hd (ws_words cs)) # tl (ws_words cs)"
        using ws_words_Cons_nospace[OF False, of cs] by simp
      from False2 obtain x xs where cs: "cs = x # xs" and x: "\<not> is_space x"
        by (cases cs) auto
      then obtain v vs where wcs: "ws_words cs = v # vs" by simp
      show ?thesis using False ih False2 unfolding w
        by (auto simp: wcs rtrim_Cons join_Cons)
    qed
  qed
qed

lemma dropWhile_collapse:
  "dropWhile is_space (collapse_ws s) = collapse_ws (dropWhile is_space s)"
proof (cases s)
  case Nil
  then show ?thesis by simp
next
  case (Cons c cs)
  show ?thesis
  proof (cases "is_space c")
    case True
    let ?d = "dropWhile is_space cs"
    have "dropWhile is_space (collapse_ws ?d) = collapse_ws ?d"
    proof (cases ?d)
      case Nil
      show ?thesis unfolding Nil by simp
    next
      case (Cons x xs)
      then have "\<not> is_space x" using hd_dropWhile[of is_space cs] by auto
      then show ?thesis using Cons by simp
    qed
    then show ?thesis using Cons True by (simp add: is_space_SP)
  next
    case False
    then show ?thesis using Cons by simp
  qed
qed

text \<open>Collapsing and trimming a line leaves its words, one space between them.\<close>

lemma clean_words: "trim (collapse_ws s) = join [SP] (ws_words s)"
proof -
  let ?d = "dropWhile is_space s"
  have hd: "?d \<noteq> [] \<Longrightarrow> \<not> is_space (hd ?d)" using hd_dropWhile by blast
  have "trim (collapse_ws s) = rtrim (collapse_ws ?d)"
    by (simp add: trim_rtrim dropWhile_collapse)
  also have "\<dots> = join [SP] (ws_words ?d)"
  proof (cases "?d = []")
    case True
    show ?thesis unfolding True by (simp add: rtrim_Nil)
  next
    case False
    then show ?thesis using hd by (simp add: rtrim_collapse)
  qed
  finally show ?thesis by (simp add: ws_words_dropWhile)
qed

lemma ws_words_join:
  "\<forall>w \<in> set ws. w \<noteq> [] \<and> (\<forall>c \<in> set w. \<not> is_space c) \<Longrightarrow> ws_words (join [SP] ws) = ws"
proof (induction ws)
  case Nil
  then show ?case by simp
next
  case (Cons w ws)
  have ns: "\<forall>x \<in> set w. \<not> is_space x" using Cons.prems by simp
  have a: "\<forall>x \<in> set v. \<not> is_space x \<Longrightarrow> v \<noteq> [] \<Longrightarrow> ws_words (v @ SP # r) = v # ws_words r"
    for v r
  proof (induction v)
    case Nil
    then show ?case by simp
  next
    case (Cons x v)
    then show ?case by (cases v) (auto simp: is_space_SP)
  qed
  have b: "\<forall>x \<in> set v. \<not> is_space x \<Longrightarrow> v \<noteq> [] \<Longrightarrow> ws_words v = [v]" for v
  proof (induction v)
    case Nil
    then show ?case by simp
  next
    case (Cons x v)
    then show ?case by (cases v) auto
  qed
  show ?case
  proof (cases ws)
    case Nil
    then show ?thesis using b[OF ns] Cons.prems by simp
  next
    case (Cons v vs)
    have "ws_words (join [SP] ws) = ws" using Cons.IH Cons.prems by simp
    then show ?thesis using a[OF ns] Cons.prems Cons by simp
  qed
qed

lemma clean_idem: "trim (collapse_ws (trim (collapse_ws l))) = trim (collapse_ws l)"
  using ws_words_join[of "ws_words l"] ws_words_nonempty[of _ l] ws_words_nospace[of _ l]
  by (simp add: clean_words)

lemma clean_no_LF: "LF \<notin> set (trim (collapse_ws l))"
proof
  assume "LF \<in> set (trim (collapse_ws l))"
  then have "LF \<in> set [SP] \<union> \<Union> (set ` set (ws_words l))"
    using set_join[of "[SP]" "ws_words l"] by (auto simp: clean_words)
  then show False
    using ws_words_nospace[of _ l LF] is_space_LF by (auto simp: LF_def SP_def)
qed

lemma normalize_fixed: "normalize (normalize s) = normalize s"
proof -
  define ls where
    "ls = filter (\<lambda>l. l \<noteq> []) (map (\<lambda>line. trim (collapse_ws line)) (split LF s))"
  have n: "normalize s = join [LF] ls" by (simp add: normalize_def ls_def)
  have noLF: "\<forall>l \<in> set ls. LF \<notin> set l" by (auto simp: ls_def clean_no_LF)
  have same: "map (\<lambda>line. trim (collapse_ws line)) ls = ls"
    by (rule map_idI) (auto simp: ls_def clean_idem)
  have ne: "filter (\<lambda>l. l \<noteq> []) ls = ls" by (simp add: ls_def)
  show ?thesis
  proof (cases "ls = []")
    case True
    then show ?thesis unfolding n by (simp add: normalize_def trim_def)
  next
    case False
    have "split LF (join [LF] ls) = ls" using split_join[OF False noLF] .
    then show ?thesis unfolding n by (simp add: normalize_def same ne)
  qed
qed

lemma normalize_example:
  "normalize (js ''a   b\<newline>\<newline> c \<newline>'') = js ''a b\<newline>c''"
  by (simp add: normalize_def js_def LF_def SP_def trim_def is_space_def)

section \<open>Escaping and the HTML template\<close>

lemma replaceAll_Nil: "replaceAll p b [] = []"
  by (simp add: replaceAll_def)

lemma replaceAll_append: "replaceAll p b (xs @ ys) = replaceAll p b xs @ replaceAll p b ys"
  by (simp add: replaceAll_def)

lemma replaceAll_hit: "replaceAll p b (p # cs) = b @ replaceAll p b cs"
  by (simp add: replaceAll_def)

lemma replaceAll_miss: "c \<noteq> p \<Longrightarrow> replaceAll p b (c # cs) = c # replaceAll p b cs"
  by (simp add: replaceAll_def)

lemma escapeHtml_Nil: "escapeHtml [] = []"
  by (simp add: escapeHtml_def replaceAll_Nil)

lemma escapeHtml_Cons: "escapeHtml (c # cs) = escapeChar c @ escapeHtml cs"
proof -
  consider "c = 0x26" | "c = 0x3C" | "c = 0x3E" | "c = 0x22" | "c = 0x27"
    | "c \<noteq> 0x26" "c \<noteq> 0x3C" "c \<noteq> 0x3E" "c \<noteq> 0x22" "c \<noteq> 0x27"
    by blast
  then show ?thesis
  proof cases
    case 1
    then show ?thesis
      by (simp add: escapeHtml_def escapeChar_def js_def replaceAll_hit replaceAll_miss)
  next
    case 2
    then show ?thesis
      by (simp add: escapeHtml_def escapeChar_def js_def replaceAll_hit replaceAll_miss)
  next
    case 3
    then show ?thesis
      by (simp add: escapeHtml_def escapeChar_def js_def replaceAll_hit replaceAll_miss)
  next
    case 4
    then show ?thesis
      by (simp add: escapeHtml_def escapeChar_def js_def replaceAll_hit replaceAll_miss)
  next
    case 5
    then show ?thesis
      by (simp add: escapeHtml_def escapeChar_def js_def replaceAll_hit replaceAll_miss)
  next
    case 6
    then show ?thesis
      by (simp add: escapeHtml_def escapeChar_def replaceAll_miss)
  qed
qed

lemma escapeHtml_concat: "escapeHtml s = concat (map escapeChar s)"
  by (induction s) (simp_all add: escapeHtml_Nil escapeHtml_Cons)

lemma markup_escapeChar: "filter markup (escapeChar c) = []"
  by (simp add: escapeChar_def markup_def js_def)

lemma markup_escapeHtml: "filter markup (escapeHtml s) = []"
  by (induction s) (simp_all add: escapeHtml_Nil escapeHtml_Cons markup_escapeChar)

lemma markup_LF: "\<not> markup LF"
  by (simp add: markup_def LF_def)

lemma markup_paragraph:
  "filter markup (js ''<p>'' @ escapeHtml l @ js ''</p>'') = filter markup (js ''<p></p>'')"
  by (simp add: markup_escapeHtml js_def)

lemma markup_renderHtml:
  "filter markup (renderHtml data) =
     filter markup (html_0 @ html_1 @ html_2 @ html_3 @ html_4 @ html_5 @ html_6 @ html_7 @ html_8)
     @ filter markup (paragraphs (text data)) @ filter markup html_9"
  by (simp add: renderHtml_def markup_escapeHtml)

lemma markup_paragraph_lines:
  "filter markup (join [LF] (map (\<lambda>p. js ''<p>'' @ escapeHtml p @ js ''</p>'') ls)) =
     concat (replicate (length ls) (filter markup (js ''<p></p>'')))"
proof (induction ls)
  case Nil
  show ?case by simp
next
  case (Cons l ls)
  let ?f = "\<lambda>p. js ''<p>'' @ escapeHtml p @ js ''</p>''"
  have step: "filter markup (join [LF] (map ?f (l # ls))) =
          filter markup (?f l) @ filter markup (join [LF] (map ?f ls))"
    by (cases ls) (simp_all add: markup_LF)
  show ?case unfolding step Cons.IH markup_paragraph by simp
qed

lemma markup_paragraphs:
  "filter markup (paragraphs body) =
     (if body = [] then filter markup (js ''<p>(No article text extracted)</p>'')
      else concat (replicate (length (split LF body)) (filter markup (js ''<p></p>''))))"
  by (simp add: paragraphs_def markup_paragraph_lines)

lemma paragraphs_script:
  "paragraphs (js ''<script>alert(1)</script>'') = js ''<p>&lt;script&gt;alert(1)&lt;/script&gt;</p>''"
  by (simp add: paragraphs_def js_def escapeHtml_def replaceAll_def LF_def)

text \<open>No rendered document contains the opening of a script tag.\<close>

lemma after_lt_append_closed:
  "lt_closed xs \<Longrightarrow> after_lt (xs @ ys) = after_lt xs @ after_lt ys"
  by (induction xs) (auto split: if_splits)

lemma lt_closed_append: "lt_closed xs \<Longrightarrow> lt_closed ys \<Longrightarrow> lt_closed (xs @ ys)"
  by (induction xs) (auto split: if_splits)

lemma no_script_append: "no_script xs \<Longrightarrow> no_script ys \<Longrightarrow> no_script (xs @ ys)"
  by (simp add: no_script_def after_lt_append_closed lt_closed_append)

lemma after_lt_suffix: "set (after_lt z) \<subseteq> set (after_lt (p @ z))"
  by (induction p) auto

lemma sublist_after_lt:
  assumes "sublist (0x3C # b # c # r) doc"
  shows "[b, c] \<in> set (after_lt doc)"
proof -
  obtain p q where "doc = p @ (0x3C # b # c # r) @ q" using assms by (auto simp: sublist_def)
  then have "doc = p @ (0x3C # b # c # (r @ q))" by simp
  moreover have "[b, c] \<in> set (after_lt (0x3C # b # c # (r @ q)))" by simp
  ultimately show ?thesis using after_lt_suffix by blast
qed

lemma no_lt_no_script: "0x3C \<notin> set xs \<Longrightarrow> no_script xs"
  by (induction xs) (auto simp: no_script_def)


lemma escapeChar_no_lt: "0x3C \<notin> set (escapeChar c)"
  by (simp add: escapeChar_def js_def)

lemma escapeHtml_no_lt: "0x3C \<notin> set (escapeHtml s)"
  by (simp add: escapeHtml_concat escapeChar_no_lt)

lemma no_script_escapeHtml: "no_script (escapeHtml s)"
  by (rule no_lt_no_script) (rule escapeHtml_no_lt)

lemma no_script_html_0: "no_script html_0"
  by (simp add: no_script_def html_0_def js_def)
lemma no_script_html_1: "no_script html_1"
  by (simp add: no_script_def html_1_def js_def)
lemma no_script_html_2: "no_script html_2"
  by (simp add: no_script_def html_2_def js_def)
lemma no_script_html_3: "no_script html_3"
  by (simp add: no_script_def html_3_def js_def)
lemma no_script_html_4: "no_script html_4"
  by (simp add: no_script_def html_4_def js_def)
lemma no_script_html_5: "no_script html_5"
  by (simp add: no_script_def html_5_def js_def)
lemma no_script_html_6: "no_script html_6"
  by (simp add: no_script_def html_6_def js_def)
lemma no_script_html_7: "no_script html_7"
  by (simp add: no_script_def html_7_def js_def)
lemma no_script_html_8: "no_script html_8"
  by (simp add: no_script_def html_8_def js_def)
lemma no_script_html_9: "no_script html_9"
  by (simp add: no_script_def html_9_def js_def)

lemma no_script_paragraph: "no_script (js ''<p>'' @ escapeHtml p @ js ''</p>'')"
proof -
  have "no_script (js ''<p>'')" "no_script (js ''</p>'')"
    by (simp_all add: no_script_def js_def)
  then show ?thesis using no_script_escapeHtml[of p] by (simp add: no_script_append)
qed

lemma no_script_LF: "no_script [LF]"
  by (simp add: no_script_def LF_def)

lemma no_script_paragraph_lines:
  "no_script (join [LF] (map (\<lambda>p. js ''<p>'' @ escapeHtml p @ js ''</p>'') ls))"
proof (induction ls)
  case Nil
  show ?case by (simp add: no_script_def)
next
  case (Cons l ls)
  show ?case
  proof (cases ls)
    case Nil
    then show ?thesis using no_script_paragraph[of l] by simp
  next
    case (Cons v vs)
    then have "join [LF] (map (\<lambda>p. js ''<p>'' @ escapeHtml p @ js ''</p>'') (l # ls)) =
        (js ''<p>'' @ escapeHtml l @ js ''</p>'') @ [LF] @
        join [LF] (map (\<lambda>p. js ''<p>'' @ escapeHtml p @ js ''</p>'') ls)"
      by simp
    then show ?thesis
      using no_script_paragraph[of l] no_script_LF Cons.IH by (simp only: no_script_append)
  qed
qed

lemma no_script_paragraphs: "no_script (paragraphs body)"
proof (cases "body = []")
  case True
  then show ?thesis by (simp add: paragraphs_def no_script_def js_def)
next
  case False
  then show ?thesis by (simp add: paragraphs_def no_script_paragraph_lines)
qed

lemma no_script_renderHtml: "no_script (renderHtml data)"
  unfolding renderHtml_def
  by (intro no_script_append no_script_escapeHtml no_script_paragraphs
      no_script_html_0 no_script_html_1 no_script_html_2 no_script_html_3 no_script_html_4
      no_script_html_5 no_script_html_6 no_script_html_7 no_script_html_8 no_script_html_9)

lemma renderHtml_no_raw_script: "\<not> sublist (js ''<script'') (renderHtml data)"
proof
  assume "sublist (js ''<script'') (renderHtml data)"
  then have "sublist (0x3C # 0x73 # 0x63 # js ''ript'') (renderHtml data)" by (simp add: js_def)
  then have "[0x73, 0x63] \<in> set (after_lt (renderHtml data))" by (rule sublist_after_lt)
  then show False using no_script_renderHtml[of data] by (simp add: no_script_def js_def)
qed

lemma sublist_join: "x \<in> set xs \<Longrightarrow> sublist x (join sep xs)"
proof (induction xs)
  case Nil
  then show ?case by simp
next
  case (Cons y ys)
  show ?case
  proof (cases "x = y")
    case True
    then show ?thesis by (simp add: join_Cons)
  next
    case False
    then have "sublist x (join sep ys)" using Cons by simp
    then obtain p q where "join sep ys = p @ x @ q" by (auto simp: sublist_def)
    then have "join sep (y # ys) = (y @ sep @ p) @ x @ q"
      using False Cons.prems by (auto simp: join_Cons)
    then show ?thesis unfolding sublist_def by blast
  qed
qed

lemma sublist_paragraphs_renderHtml: "sublist (paragraphs (text data)) (renderHtml data)"
proof -
  have "renderHtml data =
      (html_0 @ escapeHtml (orDefault (title data) (js ''Yle uusin artikkeli'')) @
       html_1 @ escapeHtml (orDefault (title data) (js ''Yle uusin artikkeli'')) @
       html_2 @ escapeHtml (url data) @
       html_3 @ escapeHtml (fetchedAt data) @
       html_4 @ escapeHtml (orDefault (title data) (js ''Viimeisin Ylen artikkeli'')) @
       html_5 @ escapeHtml (url data) @
       html_6 @ escapeHtml (url data) @
       html_7 @ escapeHtml (fetchedAt data) @
       html_8) @ paragraphs (text data) @ html_9"
    by (simp add: renderHtml_def)
  then show ?thesis unfolding sublist_def by blast
qed

lemma sublist_paragraph_renderHtml:
  assumes "text data \<noteq> []" and "p \<in> set (split LF (text data))"
  shows "sublist (js ''<p>'' @ escapeHtml p @ js ''</p>'') (renderHtml data)"
proof -
  let ?f = "\<lambda>p. js ''<p>'' @ escapeHtml p @ js ''</p>''"
  have m: "?f p \<in> set (map ?f (split LF (text data)))"
    using assms(2) by auto
  have "sublist (?f p) (join [LF] (map ?f (split LF (text data))))"
    using m by (rule sublist_join)
  moreover have "paragraphs (text data) = join [LF] (map ?f (split LF (text data)))"
    using assms(1) by (simp add: paragraphs_def)
  ultimately have "sublist (?f p) (paragraphs (text data))" by simp
  then show ?thesis
    using sublist_paragraphs_renderHtml[of data] sublist_order.order.trans by blast
qed

lemma renderHtml_layout:
  "renderHtml data =
     html_0 @ concat (map escapeChar
       (if title data = [] then js ''Yle uusin artikkeli'' else title data)) @
     html_1 @ concat (map escapeChar
       (if title data = [] then js ''Yle uusin artikkeli'' else title data)) @
     html_2 @ concat (map escapeChar (url data)) @
     html_3 @ concat (map escapeChar (fetchedAt data)) @
     html_4 @ concat (map escapeChar
       (if title data = [] then js ''Viimeisin Ylen artikkeli'' else title data)) @
     html_5 @ concat (map escapeChar (url data)) @
     html_6 @ concat (map escapeChar (url data)) @
     html_7 @ concat (map escapeChar (fetchedAt data)) @
     html_8 @
     (if text data = [] then js ''<p>(No article text extracted)</p>''
      else join [LF] (map (\<lambda>p. js ''<p>'' @ concat (map escapeChar p) @ js ''</p>'')
                       (split LF (text data)))) @
     html_9"
  by (simp add: renderHtml_def paragraphs_def orDefault_def escapeHtml_concat)

lemma escape_script: "escapeHtml (js ''<script>alert(1)</script>'') = js ''&lt;script&gt;alert(1)&lt;/script&gt;''"
  by (simp add: escapeHtml_concat escapeChar_def js_def)

lemma script_line_rendered:
  assumes "text data = js ''<script>alert(1)</script>''"
  shows "sublist (js ''<p>&lt;script&gt;alert(1)&lt;/script&gt;</p>'') (renderHtml data)"
proof -
  have "paragraphs (text data) = js ''<p>&lt;script&gt;alert(1)&lt;/script&gt;</p>''"
    unfolding assms by (rule paragraphs_script)
  then show ?thesis using sublist_paragraphs_renderHtml[of data] by simp
qed

lemma template_no_ampersand:
  "0x26 \<notin> set (html_0 @ html_1 @ html_2 @ html_3 @ html_4 @ html_5 @ html_6 @ html_7 @
                  html_8 @ html_9)"
  by (simp add: html_0_def html_1_def html_2_def html_3_def html_4_def html_5_def html_6_def
      html_7_def html_8_def html_9_def js_def)

section \<open>The content fallback\<close>












section \<open>The run\<close>





lemma targetUrl_not_NoHref: "targetUrl d h \<noteq> Inl NoHref"
  by (simp add: targetUrl_def split: option.splits)

lemma latestLink_NoHref:
  "latestLink d = Inl NoHref \<longleftrightarrow>
     waitForSelector d = Inr () \<and> (getAttribute d = Inr None \<or> getAttribute d = Inr (Some []))"
  using targetUrl_not_NoHref[of d]
  by (auto simp: latestLink_def split: sum.splits option.splits)

lemma latestLink_wait_rejected: "waitForSelector d = Inl f \<Longrightarrow> latestLink d = Inl (Rejected f)"
  by (simp add: latestLink_def)


lemma extractCore_events: "e \<in> set (snd (extractCore d)) \<Longrightarrow> \<exists>u. e = Goto u"
  by (auto simp: extractCore_def Let_def split: sum.splits prod.splits)


lemma extractCore_link_failed:
  "goto_home d = Inr () \<Longrightarrow> latestLink d = Inl e \<Longrightarrow>
     extractCore d = (Inl e, [Goto (js ''https://yle.fi/'')])"
  by (simp add: extractCore_def)

lemma tryBlock_events: "e \<in> set (snd (tryBlock d)) \<Longrightarrow> \<exists>u. e = Goto u"
  using extractCore_events[of e d]
  by (auto simp: tryBlock_def split: sum.splits prod.splits)


lemma tryBlock_link_failed:
  "goto_home d = Inr () \<Longrightarrow> latestLink d = Inl e \<Longrightarrow>
     tryBlock d = (Inl e, [Goto (js ''https://yle.fi/'')])"
  by (simp add: tryBlock_def extractCore_link_failed)







lemma finallyBlock_closes: "finallyBlock d = [PageClose, ContextClose, BrowserClose]"
  by (simp add: finallyBlock_def)

lemma run_acquired:
  "acquired d \<Longrightarrow> fetchLatestYleArticle d =
     (case tryBlock d of
        (Inr a, evs) \<Rightarrow>
          (Inr (Some a), [Launch, NewContext, NewPage] @ evs @ [PageClose, ContextClose, BrowserClose])
      | (Inl e, evs) \<Rightarrow>
          (Inr None, [Launch, NewContext, NewPage] @ evs @ catchBlock e @
                     [PageClose, ContextClose, BrowserClose]))"
  by (simp add: acquired_def fetchLatestYleArticle_def finallyBlock_closes split: prod.splits sum.splits)

lemma extractCore_not_close: "e \<in> set (snd (extractCore d)) \<Longrightarrow> \<not> is_close e"
proof -
  assume "e \<in> set (snd (extractCore d))"
  then obtain u where "e = Goto u" using extractCore_events by blast
  then show ?thesis by simp
qed

lemma extractCore_no_close: "filter is_close (snd (extractCore d)) = []"
  using extractCore_not_close[of _ d] by (simp add: filter_empty_conv)

lemma extractCore_keep: "filter (\<lambda>e. \<not> is_close e) (snd (extractCore d)) = snd (extractCore d)"
  using extractCore_not_close[of _ d] by (simp add: filter_id_conv)

lemma catchBlock_no_close: "filter is_close (catchBlock e) = []"
  by (simp add: catchBlock_def)

lemma catchBlock_keep: "filter (\<lambda>e. \<not> is_close e) (catchBlock e) = catchBlock e"
  by (simp add: catchBlock_def)

lemma main_plain_unfold:
  "main_plain d =
     (case launch d of
        Inl f \<Rightarrow> (Inl f, [Launch])
      | Inr _ \<Rightarrow>
        (case newContext d of
           Inl f \<Rightarrow> (Inl f, [Launch, NewContext])
         | Inr _ \<Rightarrow>
           (case newPage d of
              Inl f \<Rightarrow> (Inl f, [Launch, NewContext, NewPage])
            | Inr _ \<Rightarrow>
              (case extractCore d of
                 (Inr (t, u, c), evs) \<Rightarrow>
                   (Inr (), [Launch, NewContext, NewPage] @ evs @
                            [PageClose, ContextClose, BrowserClose] @ [ConsoleLog (plainOutput t u c)])
               | (Inl e, evs) \<Rightarrow>
                   (Inr (), [Launch, NewContext, NewPage] @ evs @ catchBlock e @
                            [PageClose, ContextClose, BrowserClose])))))"
  by (simp add: main_plain_def fetchLatestYleArticle_def tryBlock_def finallyBlock_closes
      split: sum.splits prod.splits)

lemma readTitle_inline:
  "(case h1_textContent d of Inl _ \<Rightarrow> [] | Inr None \<Rightarrow> [] | Inr (Some s) \<Rightarrow> trim s) = readTitle d"
  by (simp add: readTitle_def catch_default_def split: sum.splits option.splits)

lemmas part_000_unfolding = tryBlock_part_000_def extractCore_def resolveContent_def
      articleTier_def contentTier_def mainTier_def readText_def catch_default_def
      raceVisible_def Let_def readTitle_inline normalize_def[symmetric] plainOutput_def[symmetric]

lemma tryBlock_part_000_extract:
  "tryBlock_part_000 d =
     (case extractCore d of
        (Inl e, evs) \<Rightarrow> (Inl e, evs)
      | (Inr (t, u, c), evs) \<Rightarrow> (Inr (), evs @ [ConsoleLog (plainOutput t u c)]))"
proof (cases "goto_home d")
  case (Inl f)
  then show ?thesis by (simp add: tryBlock_part_000_def extractCore_def)
next
  case gh: (Inr u0)
  show ?thesis
  proof (cases "waitForSelector d")
    case (Inl f)
    then show ?thesis using gh by (simp add: tryBlock_part_000_def extractCore_def latestLink_def)
  next
    case ws: (Inr u1)
    show ?thesis
    proof (cases "getAttribute d")
      case (Inl f)
      then show ?thesis using gh ws by (simp add: tryBlock_part_000_def extractCore_def latestLink_def)
    next
      case ga: (Inr h)
      show ?thesis
      proof (cases "h = None \<or> h = Some []")
        case True
        then show ?thesis using gh ws ga
          by (auto simp: tryBlock_part_000_def extractCore_def latestLink_def)
      next
        case False
        then obtain href where h: "h = Some href" and ne: "href \<noteq> []" by (cases h) auto
        define tg where
          "tg = (if startsWith href (js ''http'') then Some href
                 else new_URL d href (js ''https://yle.fi''))"
        have ll: "latestLink d = (case tg of None \<Rightarrow> Inl InvalidURL | Some t \<Rightarrow> Inr t)"
          using ws ga h ne by (simp add: latestLink_def targetUrl_def tg_def)
        note pre = gh ws ga h ne tg_def[symmetric]
        show ?thesis
        proof (cases tg)
          case None
          then show ?thesis using pre ll by (simp add: tryBlock_part_000_def extractCore_def)
        next
          case tgt: (Some target)
          show ?thesis
          proof (cases "goto_article d target")
            case (Inl f)
            then show ?thesis using pre ll tgt by (simp add: tryBlock_part_000_def extractCore_def)
          next
            case gt: (Inr u2)
            show ?thesis
            proof (cases "article_count d")
              case (Inl f)
              then show ?thesis using pre ll tgt gt
                by (simp add: tryBlock_part_000_def extractCore_def resolveContent_def articleTier_def)
            next
              case ac: (Inr na)
              show ?thesis
              proof (cases "content_count d")
                case cc: (Inl f1)
                show ?thesis
                proof (cases "main_count d")
                  case (Inl f2)
                  then show ?thesis using pre ll tgt gt ac cc by (simp add: part_000_unfolding)
                next
                  case (Inr nm)
                  then show ?thesis using pre ll tgt gt ac cc by (simp add: part_000_unfolding)
                qed
              next
                case cc: (Inr nc)
                show ?thesis
                proof (cases "main_count d")
                  case (Inl f2)
                  then show ?thesis using pre ll tgt gt ac cc by (simp add: part_000_unfolding)
                next
                  case (Inr nm)
                  then show ?thesis using pre ll tgt gt ac cc by (simp add: part_000_unfolding)
                qed
              qed
            qed
          qed
        qed
      qed
    qed
  qed
qed

lemma part_000_unfold:
  "fetchLatestYleArticle_part_000 d =
     (case launch d of
        Inl f \<Rightarrow> (Inl f, [Launch])
      | Inr _ \<Rightarrow>
        (case newContext d of
           Inl f \<Rightarrow> (Inl f, [Launch, NewContext])
         | Inr _ \<Rightarrow>
           (case newPage d of
              Inl f \<Rightarrow> (Inl f, [Launch, NewContext, NewPage])
            | Inr _ \<Rightarrow>
              (case extractCore d of
                 (Inr (t, u, c), evs) \<Rightarrow>
                   (Inr (), [Launch, NewContext, NewPage] @ evs @ [ConsoleLog (plainOutput t u c)] @
                            [PageClose, ContextClose, BrowserClose])
               | (Inl e, evs) \<Rightarrow>
                   (Inr (), [Launch, NewContext, NewPage] @ evs @ catchBlock e @
                            [PageClose, ContextClose, BrowserClose])))))"
  by (simp add: fetchLatestYleArticle_part_000_def tryBlock_part_000_extract finallyBlock_closes
      split: sum.splits prod.splits)

lemma run_record_fields:
  "fetchLatestYleArticle d = (Inr (Some a), evs) \<Longrightarrow>
     fst (extractCore d) = Inr (title a, url a, text a)"
  by (auto simp: fetchLatestYleArticle_def tryBlock_def split: sum.splits prod.splits)

text \<open>
  A run whose session was acquired ends, on success and on every failure alike, by
  calling \<^verbatim>\<open>close\<close> on the page, on the context and on the browser, in this order and
  after everything else it does; it then returns.
\<close>

theorem run_closes_session:
  assumes "acquired d"
  shows "\<exists>r pre. fetchLatestYleArticle d = (Inr r, pre @ [PageClose, ContextClose, BrowserClose])
           \<and> (\<forall>e \<in> set pre. \<not> is_close e)"
proof (cases "tryBlock d")
  case (Pair r evs)
  have ev: "\<forall>e \<in> set evs. \<not> is_close e"
  proof
    fix e
    assume "e \<in> set evs"
    then obtain u where "e = Goto u" using tryBlock_events[of e d] Pair by auto
    then show "\<not> is_close e" by simp
  qed
  show ?thesis
  proof (cases r)
    case (Inl e)
    have "fetchLatestYleArticle d =
        (Inr None, ([Launch, NewContext, NewPage] @ evs @ catchBlock e) @
                   [PageClose, ContextClose, BrowserClose])"
      using Pair Inl run_acquired[OF assms] by simp
    moreover have "\<forall>x \<in> set ([Launch, NewContext, NewPage] @ evs @ catchBlock e). \<not> is_close x"
      using ev by (auto simp: catchBlock_def)
    ultimately show ?thesis by blast
  next
    case (Inr a)
    have "fetchLatestYleArticle d =
        (Inr (Some a), ([Launch, NewContext, NewPage] @ evs) @ [PageClose, ContextClose, BrowserClose])"
      using Pair Inr run_acquired[OF assms] by simp
    moreover have "\<forall>x \<in> set ([Launch, NewContext, NewPage] @ evs). \<not> is_close x"
      using ev by auto
    ultimately show ?thesis by blast
  qed
qed

theorem run_closes_session_witness:
  "acquired (example_env\<lparr>goto_article := (\<lambda>_. Inl (TimeoutError (js ''Timeout 60000ms exceeded.'')))\<rparr>)
   \<and> fetchLatestYleArticle
       (example_env\<lparr>goto_article := (\<lambda>_. Inl (TimeoutError (js ''Timeout 60000ms exceeded.'')))\<rparr>)
     = (Inr None,
        [Launch, NewContext, NewPage, Goto (js ''https://yle.fi/''), Goto (js ''https://yle.fi/b/2''),
         ConsoleError (js ''Scrape failed:'') (Msg (js ''Timeout 60000ms exceeded.'')), SetExitCode 1,
         PageClose, ContextClose, BrowserClose])"
proof -
  let ?d = "example_env\<lparr>goto_article := (\<lambda>_. Inl (TimeoutError (js ''Timeout 60000ms exceeded.'')))\<rparr>"
  have a: "acquired ?d" by (simp add: acquired_def example_env_def)
  have "fetchLatestYleArticle ?d
     = (Inr None,
        [Launch, NewContext, NewPage, Goto (js ''https://yle.fi/''), Goto (js ''https://yle.fi/b/2''),
         ConsoleError (js ''Scrape failed:'') (Msg (js ''Timeout 60000ms exceeded.'')), SetExitCode 1,
         PageClose, ContextClose, BrowserClose])"
    using run_closes_session[OF a]
    by (simp add: fetchLatestYleArticle_def tryBlock_def extractCore_def latestLink_def
        targetUrl_def startsWith_def catchBlock_def finallyBlock_def example_env_def js_def)
  then show ?thesis using a by simp
qed

section \<open>The claims\<close>

text \<open>
  C1. Every text that the HTML renderer interpolates (the title or its default, the URL,
  the timestamp and each body line) goes through the escaping, which replaces each of
  \<^verbatim>\<open>&\<close>, \<^verbatim>\<open><\<close>, \<^verbatim>\<open>>\<close>, the double quote and the single quote by its entity and leaves every
  other code unit alone; escaped text therefore has none of the four markup characters.
  The rendered document is the template with exactly these escaped texts in its ten
  places, the body as one paragraph for each line (or the placeholder paragraph when the
  text is empty); the template itself has no ampersand, so every ampersand of a document
  opens an entity. As a consequence the markup characters of a rendered document come
  from the template alone: two records whose body texts are both empty or both
  non-empty, with the same number of lines, render to documents with the same markup
  characters, whatever the fields hold. Every body line is in the document as its
  escaped paragraph; the body line \<^verbatim>\<open><script>alert(1)</script>\<close> is there as the paragraph
  \<^verbatim>\<open><p>&lt;script&gt;alert(1)&lt;/script&gt;</p>\<close>, and no document at all contains
  \<^verbatim>\<open><script\<close>.
\<close>

theorem renderHtml_escapes:
  "escapeHtml s = concat (map escapeChar s)
   \<and> filter markup (escapeHtml s) = []
   \<and> ((text a = []) = (text b = []) \<and> length (split LF (text a)) = length (split LF (text b))
        \<longrightarrow> filter markup (renderHtml a) = filter markup (renderHtml b))
   \<and> paragraphs (js ''<script>alert(1)</script>'') =
        js ''<p>&lt;script&gt;alert(1)&lt;/script&gt;</p>''
   \<and> renderHtml a =
        html_0 @ concat (map escapeChar
          (if title a = [] then js ''Yle uusin artikkeli'' else title a)) @
        html_1 @ concat (map escapeChar
          (if title a = [] then js ''Yle uusin artikkeli'' else title a)) @
        html_2 @ concat (map escapeChar (url a)) @
        html_3 @ concat (map escapeChar (fetchedAt a)) @
        html_4 @ concat (map escapeChar
          (if title a = [] then js ''Viimeisin Ylen artikkeli'' else title a)) @
        html_5 @ concat (map escapeChar (url a)) @
        html_6 @ concat (map escapeChar (url a)) @
        html_7 @ concat (map escapeChar (fetchedAt a)) @
        html_8 @
        (if text a = [] then js ''<p>(No article text extracted)</p>''
         else join [LF] (map (\<lambda>p. js ''<p>'' @ concat (map escapeChar p) @ js ''</p>'')
                          (split LF (text a)))) @
        html_9
   \<and> 0x26 \<notin> set (html_0 @ html_1 @ html_2 @ html_3 @ html_4 @ html_5 @ html_6 @ html_7 @
                     html_8 @ html_9)
   \<and> (text a \<noteq> [] \<and> p \<in> set (split LF (text a)) \<longrightarrow>
        sublist (js ''<p>'' @ concat (map escapeChar p) @ js ''</p>'') (renderHtml a))
   \<and> (text a = js ''<script>alert(1)</script>'' \<longrightarrow>
        sublist (js ''<p>&lt;script&gt;alert(1)&lt;/script&gt;</p>'') (renderHtml a))
   \<and> \<not> sublist (js ''<script'') (renderHtml a)"
proof -
  have 1: "escapeHtml s = concat (map escapeChar s)" by (rule escapeHtml_concat)
  have 2: "filter markup (escapeHtml s) = []" by (rule markup_escapeHtml)
  have 3: "(text a = []) = (text b = []) \<and>
        length (split LF (text a)) = length (split LF (text b))
        \<longrightarrow> filter markup (renderHtml a) = filter markup (renderHtml b)"
    by (simp add: markup_renderHtml markup_paragraphs)
  have 7: "text a \<noteq> [] \<and> p \<in> set (split LF (text a)) \<longrightarrow>
        sublist (js ''<p>'' @ concat (map escapeChar p) @ js ''</p>'') (renderHtml a)"
    using sublist_paragraph_renderHtml[of a p] by (simp add: escapeHtml_concat)
  have 8: "text a = js ''<script>alert(1)</script>'' \<longrightarrow>
        sublist (js ''<p>&lt;script&gt;alert(1)&lt;/script&gt;</p>'') (renderHtml a)"
    using script_line_rendered[of a] by blast
  show ?thesis
    using 1 2 3 paragraphs_script renderHtml_layout[of a] template_no_ampersand 7 8
      renderHtml_no_raw_script[of a]
    by (intro conjI)
qed

theorem renderHtml_escapes_witness:
  "filter markup (renderHtml \<lparr>title = js ''<b>'', url = js ''https://yle.fi/a?x=1&y=2'',
       text = js ''<script>alert(1)</script>'', fetchedAt = js ''2026''\<rparr>) =
   filter markup (renderHtml \<lparr>title = [], url = js ''u'', text = js ''plain'', fetchedAt = js ''t''\<rparr>)
   \<and> sublist (js ''<p>&lt;script&gt;alert(1)&lt;/script&gt;</p>'')
       (renderHtml \<lparr>title = js ''<b>'', url = js ''https://yle.fi/a?x=1&y=2'',
          text = js ''<script>alert(1)</script>'', fetchedAt = js ''2026''\<rparr>)
   \<and> sublist (js ''<p>'' @ concat (map escapeChar (js ''<script>alert(1)</script>'')) @ js ''</p>'')
       (renderHtml \<lparr>title = js ''<b>'', url = js ''https://yle.fi/a?x=1&y=2'',
          text = js ''<script>alert(1)</script>'', fetchedAt = js ''2026''\<rparr>)"
proof -
  let ?a = "\<lparr>title = js ''<b>'', url = js ''https://yle.fi/a?x=1&y=2'',
       text = js ''<script>alert(1)</script>'', fetchedAt = js ''2026''\<rparr>"
  let ?b = "\<lparr>title = [], url = js ''u'', text = js ''plain'', fetchedAt = js ''t''\<rparr>"
  let ?p = "js ''<script>alert(1)</script>''"
  note t = renderHtml_escapes[of "[]" ?a ?b ?p]
  have h1: "(text ?a = []) = (text ?b = []) \<and>
      length (split LF (text ?a)) = length (split LF (text ?b))"
    by (simp add: js_def LF_def)
  have h2: "text ?a \<noteq> [] \<and> ?p \<in> set (split LF (text ?a))"
    by (simp add: js_def LF_def)
  have h3: "text ?a = ?p" by simp
  show ?thesis using t h1 h2 h3 by blast
qed




text \<open>
  C3. For every input string the text cleanup splits the input at line breaks, replaces
  every run of whitespace inside a line by one space and trims the line (so the line
  becomes its words with one space between them), drops the lines that are then empty,
  and joins the remaining lines with one line break in their original order. The pieces
  of the split are free of line breaks and give the input back when joined; the words of
  a line are not empty and are, taken together, the line without its whitespace. In
  particular \<^verbatim>\<open>"a   b\n\n c \n"\<close> becomes \<^verbatim>\<open>"a b\nc"\<close>.
\<close>

theorem normalize_lines:
  "normalize s =
     join [LF] (filter (\<lambda>l. l \<noteq> []) (map (\<lambda>l. join [SP] (ws_words l)) (split LF s)))
   \<and> join [LF] (split LF s) = s
   \<and> LF \<notin> set (concat (split LF s))
   \<and> [] \<notin> set (ws_words l)
   \<and> concat (ws_words l) = filter (\<lambda>c. \<not> is_space c) l
   \<and> normalize (js ''a   b\<newline>\<newline> c \<newline>'') = js ''a b\<newline>c''"
proof -
  have "LF \<notin> set (concat (split LF s))"
    using split_no_sep[of _ LF s] by auto
  moreover have "[] \<notin> set (ws_words l)"
    using ws_words_nonempty[of "[]" l] by blast
  ultimately show ?thesis
    using normalize_example by (simp add: normalize_def clean_words join_split concat_ws_words)
qed

theorem normalize_lines_witness:
  "normalize (js ''x  y\<newline> z'') = js ''x y\<newline>z''"
  using normalize_lines[of "js ''x  y\<newline> z''" "[]"]
  by (simp add: js_def LF_def SP_def is_space_def)

text \<open>
  C4. The text cleanup is idempotent: cleaning a cleaned text changes nothing.
\<close>

theorem normalize_idempotent: "normalize (normalize x) = normalize x"
  by (rule normalize_fixed)

theorem normalize_idempotent_witness:
  "normalize (normalize (js ''a   b\<newline>\<newline> c \<newline>'')) = normalize (js ''a   b\<newline>\<newline> c \<newline>'')"
  using normalize_idempotent[of "js ''a   b\<newline>\<newline> c \<newline>''"] .

text \<open>
  C5. An \<^verbatim>\<open>href\<close> that starts with the four letters \<^verbatim>\<open>http\<close> is taken for an absolute URL and
  kept as it is. When the first link of the homepage carries the relative reference
  \<^verbatim>\<open>http-uutiset/1\<close>, the link resolver returns it unchanged: the target URL has no scheme,
  so it is not an absolute URL, and it has not been resolved against \<^verbatim>\<open>https://yle.fi\<close>.
\<close>

theorem latestLink_http_prefix:
  "latestLink (on_homepage (js ''Timeout 30000ms exceeded.'') [Some (js ''http-uutiset/1'')] example_env)
     = Inr (js ''http-uutiset/1'')
   \<and> \<not> has_scheme (js ''http-uutiset/1'')"
  by (simp add: latestLink_def on_homepage_def targetUrl_def startsWith_def has_scheme_def
      is_alpha_def is_scheme_char_def js_def)

text \<open>
  C6. The link resolver fails with the script's own error (no \<^verbatim>\<open>href\<close> found) exactly when
  the wait for a link succeeded and the \<^verbatim>\<open>href\<close> of the first link is absent or empty. When
  the wait itself is rejected, as it is on a homepage without any matching element, the
  resolver fails with that rejection. Whatever the failure of the resolver, a run whose
  session was acquired and whose homepage was loaded reports it, sets the exit code,
  closes the session and returns \<^verbatim>\<open>null\<close>.
\<close>

theorem latestLink_failure:
  "(latestLink d = Inl NoHref \<longleftrightarrow>
      waitForSelector d = Inr () \<and> (getAttribute d = Inr None \<or> getAttribute d = Inr (Some [])))
   \<and> (waitForSelector d = Inl f \<longrightarrow> latestLink d = Inl (Rejected f))
   \<and> (acquired d \<and> goto_home d = Inr () \<and> latestLink d = Inl e \<longrightarrow>
        fetchLatestYleArticle d =
          (Inr None,
           [Launch, NewContext, NewPage, Goto (js ''https://yle.fi/'')] @ catchBlock e @
           [PageClose, ContextClose, BrowserClose]))"
  using latestLink_NoHref[of d] latestLink_wait_rejected[of d f]
  by (auto simp: run_acquired tryBlock_link_failed)

theorem latestLink_failure_witness:
  "latestLink (on_homepage (js ''Timeout 30000ms exceeded.'') [None, Some (js ''/a/1'')] example_env)
     = Inl NoHref
   \<and> fst (fetchLatestYleArticle
        (on_homepage (js ''Timeout 30000ms exceeded.'') [None, Some (js ''/a/1'')] example_env))
     = Inr None
   \<and> fst (fetchLatestYleArticle (on_homepage (js ''Timeout 30000ms exceeded.'') [] example_env))
     = Inr None"
  using latestLink_failure[of
      "on_homepage (js ''Timeout 30000ms exceeded.'') [None, Some (js ''/a/1'')] example_env"
      "TimeoutError []" NoHref]
    latestLink_failure[of "on_homepage (js ''Timeout 30000ms exceeded.'') [] example_env"
      "TimeoutError (js ''Timeout 30000ms exceeded.'')"
      "Rejected (TimeoutError (js ''Timeout 30000ms exceeded.''))"]
  by (simp add: on_homepage_def example_env_def acquired_def)

text \<open>
  On a homepage without any matching element the failure is the timeout of the wait, not
  the script's own error.
\<close>

theorem latestLink_timeout_counterexample:
  "latestLink (on_homepage (js ''Timeout 30000ms exceeded.'') [] example_env)
     = Inl (Rejected (TimeoutError (js ''Timeout 30000ms exceeded.'')))
   \<and> latestLink (on_homepage (js ''Timeout 30000ms exceeded.'') [] example_env) \<noteq> Inl NoHref"
  by (simp add: latestLink_def on_homepage_def)




text \<open>
  C8. Every exit path of a run is to release what the run has opened: the page, the
  context and the browser. A failure inside the \<^verbatim>\<open>try\<close> block does so, as the rejected
  homepage load below shows. But when the browser has been launched and the context
  cannot be created, the function rejects after the two calls \<^verbatim>\<open>launch\<close> and
  \<^verbatim>\<open>newContext\<close>, and the browser is never closed.
\<close>

theorem run_leaks_browser:
  "fetchLatestYleArticle (example_env\<lparr>newContext := Inl (DriverError (js ''Target closed''))\<rparr>)
     = (Inl (DriverError (js ''Target closed'')), [Launch, NewContext])
   \<and> launch (example_env\<lparr>newContext := Inl (DriverError (js ''Target closed''))\<rparr>) = Inr ()
   \<and> BrowserClose \<notin> set (snd (fetchLatestYleArticle
         (example_env\<lparr>newContext := Inl (DriverError (js ''Target closed''))\<rparr>)))
   \<and> fetchLatestYleArticle
         (example_env\<lparr>goto_home := Inl (TimeoutError (js ''Timeout 60000ms exceeded.''))\<rparr>)
     = (Inr None,
        [Launch, NewContext, NewPage, Goto (js ''https://yle.fi/''),
         ConsoleError (js ''Scrape failed:'') (Msg (js ''Timeout 60000ms exceeded.'')), SetExitCode 1,
         PageClose, ContextClose, BrowserClose])"
  by (simp add: fetchLatestYleArticle_def tryBlock_def extractCore_def catchBlock_def
      finallyBlock_def example_env_def js_def)

text \<open>
  C9. The plain-text output is, in this order: the line \<^verbatim>\<open>TITLE: \<close> with the title, left
  out altogether when the title is empty; the line \<^verbatim>\<open>URL: \<close> with the URL; the separator
  line \<^verbatim>\<open>---\<close>; and the body text, or the placeholder \<^verbatim>\<open>(No article text extracted)\<close> when
  the body text is empty.
\<close>

theorem plainOutput_layout:
  "plainOutput ttl target body =
     (if ttl = [] then [] else js ''TITLE: '' @ ttl @ [LF]) @
     js ''URL: '' @ target @ [LF] @ js ''---'' @ [LF] @
     (if body = [] then js ''(No article text extracted)'' else body)"
  by (simp add: plainOutput_def js_def)

theorem plainOutput_layout_witness:
  "plainOutput [] (js ''https://yle.fi/b/2'') [] =
     js ''URL: https://yle.fi/b/2\<newline>---\<newline>(No article text extracted)''
   \<and> plainOutput (js ''Headline'') (js ''https://yle.fi/b/2'') (js ''Line one\<newline>Line two'') =
     js ''TITLE: Headline\<newline>URL: https://yle.fi/b/2\<newline>---\<newline>Line one\<newline>Line two''"
  using plainOutput_layout[of "[]" "js ''https://yle.fi/b/2''" "[]"]
    plainOutput_layout[of "js ''Headline''" "js ''https://yle.fi/b/2''" "js ''Line one\<newline>Line two''"]
  by (simp add: js_def LF_def)

text \<open>
  C10. The two scripts are embedded separately. On the same responses of the driver the
  \<^verbatim>\<open>try\<close> block of the second script fails with the same error as the extraction of
  \<^verbatim>\<open>src/scraper.js\<close>, or prints the plain-text output of the very title, target URL and
  cleaned text that this extraction computes. Hence both scripts reject or both complete;
  apart from the three \<^verbatim>\<open>close\<close> calls they produce the same events in the same order
  (the same navigations, the same error report, the same printed text), and they make
  the same \<^verbatim>\<open>close\<close> calls. The second script prints inside the \<^verbatim>\<open>try\<close> block, hence before
  closing; the first prints after the function has returned. Whenever \<^verbatim>\<open>src/scraper.js\<close>
  returns a record, its title, URL and text are the three values of the extraction, and
  the text printed by either script is their plain-text output.
\<close>

theorem scripts_agree:
  "tryBlock_part_000 d =
     (case extractCore d of
        (Inl e, evs) \<Rightarrow> (Inl e, evs)
      | (Inr (t, u, c), evs) \<Rightarrow> (Inr (), evs @ [ConsoleLog (plainOutput t u c)]))
   \<and> fst (main_plain d) = fst (fetchLatestYleArticle_part_000 d)
   \<and> filter (\<lambda>e. \<not> is_close e) (snd (main_plain d)) =
       filter (\<lambda>e. \<not> is_close e) (snd (fetchLatestYleArticle_part_000 d))
   \<and> filter is_close (snd (main_plain d)) = filter is_close (snd (fetchLatestYleArticle_part_000 d))
   \<and> (\<forall>a evs. fetchLatestYleArticle d = (Inr (Some a), evs) \<longrightarrow>
        fst (extractCore d) = Inr (title a, url a, text a) \<and>
        ConsoleLog (plainOutput (title a) (url a) (text a))
          \<in> set (snd (fetchLatestYleArticle_part_000 d)) \<and>
        ConsoleLog (plainOutput (title a) (url a) (text a)) \<in> set (snd (main_plain d)))"
proof -
  obtain r evs where ex: "extractCore d = (r, evs)" by (cases "extractCore d")
  have nc: "filter is_close evs = []" using extractCore_no_close[of d] ex by simp
  have kp: "filter (\<lambda>e. \<not> is_close e) evs = evs" using extractCore_keep[of d] ex by simp
  have 1: "fst (main_plain d) = fst (fetchLatestYleArticle_part_000 d)"
    unfolding main_plain_unfold part_000_unfold ex
    by (simp split: sum.splits prod.splits)
  have 2: "filter (\<lambda>e. \<not> is_close e) (snd (main_plain d)) =
       filter (\<lambda>e. \<not> is_close e) (snd (fetchLatestYleArticle_part_000 d))"
    unfolding main_plain_unfold part_000_unfold ex
    by (simp add: kp catchBlock_keep split: sum.splits prod.splits)
  have 3: "filter is_close (snd (main_plain d)) =
       filter is_close (snd (fetchLatestYleArticle_part_000 d))"
    unfolding main_plain_unfold part_000_unfold ex
    by (simp add: nc catchBlock_no_close split: sum.splits prod.splits)
  have 4: "fst (extractCore d) = Inr (title a, url a, text a) \<and>
        ConsoleLog (plainOutput (title a) (url a) (text a))
          \<in> set (snd (fetchLatestYleArticle_part_000 d)) \<and>
        ConsoleLog (plainOutput (title a) (url a) (text a)) \<in> set (snd (main_plain d))"
    if run: "fetchLatestYleArticle d = (Inr (Some a), es)" for a es
  proof -
    have f: "fst (extractCore d) = Inr (title a, url a, text a)"
      using run_record_fields[OF run] .
    have acq: "launch d = Inr () \<and> newContext d = Inr () \<and> newPage d = Inr ()"
      using run by (auto simp: fetchLatestYleArticle_def split: sum.splits prod.splits)
    have r: "r = Inr (title a, url a, text a)" using f ex by simp
    show ?thesis
      unfolding main_plain_unfold part_000_unfold ex r
      using acq f ex by simp
  qed
  show ?thesis using tryBlock_part_000_extract[of d] 1 2 3 4 by blast
qed

theorem scripts_agree_witness:
  "snd (fetchLatestYleArticle_part_000 example_env) =
     [Launch, NewContext, NewPage, Goto (js ''https://yle.fi/''), Goto (js ''https://yle.fi/b/2''),
      ConsoleLog (js ''TITLE: Headline\<newline>URL: https://yle.fi/b/2\<newline>---\<newline>Line one\<newline>Line two''),
      PageClose, ContextClose, BrowserClose]
   \<and> snd (main_plain example_env) =
     [Launch, NewContext, NewPage, Goto (js ''https://yle.fi/''), Goto (js ''https://yle.fi/b/2''),
      PageClose, ContextClose, BrowserClose,
      ConsoleLog (js ''TITLE: Headline\<newline>URL: https://yle.fi/b/2\<newline>---\<newline>Line one\<newline>Line two'')]"
  using scripts_agree[of example_env]
  by (simp add: main_plain_def fetchLatestYleArticle_part_000_def tryBlock_part_000_def Let_def
      fetchLatestYleArticle_def tryBlock_def extractCore_def latestLink_def
      targetUrl_def startsWith_def resolveContent_def articleTier_def contentTier_def
      mainTier_def readText_def readTitle_def catch_default_def raceVisible_def plainOutput_def
      normalize_def trim_def is_space_def finallyBlock_def example_env_def js_def LF_def SP_def)

end
